theory Spec2Isabelle
  imports Complex_Main "HOL-Library.FSet" "HOL-Library.Multiset" "HOL-Library.Char_ord"
    "HOL-Library.List_Lexorder"
begin

section \<open>The backing store (friend\_app.py, DatabaseManager and User)\<close>

text \<open>
  The SQLite store is a record of its three tables, each a list of rows in rowid order.
  Only the columns the program reads are kept: \<open>users(id, name, email)\<close>,
  \<open>interests(user_id, interest)\<close> and \<open>friends(user_id, friend_id)\<close>; the row ids of
  the last two tables and the \<open>created_at\<close> stamps are never read by any function.
  \<open>users_seq\<close> is the AUTOINCREMENT counter SQLite keeps for \<open>users\<close>.
  Python's unbounded integers are \<open>int\<close>, its floats are idealised as \<open>real\<close>,
  and a Python \<open>set\<close> is a finite set (\<open>fset\<close>).
\<close>

record user_row =
  u_id :: int
  u_name :: string
  u_email :: string

record database =
  users :: "user_row list"
  users_seq :: int
  interests :: "(int \<times> string) list"
  friends :: "(int \<times> int) list"

definition empty_db :: database where
  "empty_db = \<lparr>users = [], users_seq = 0, interests = [], friends = []\<rparr>"

definition user_ids :: "database \<Rightarrow> int set" where
  "user_ids db = u_id ` set (users db)"

text \<open>\<open>User.get_user\<close>: \<open>dict(row) if row else None\<close>.\<close>

definition get_user :: "database \<Rightarrow> int \<Rightarrow> user_row option" where
  "get_user db uid = find (\<lambda>r. u_id r = uid) (users db)"

definition get_all_users :: "database \<Rightarrow> user_row list" where
  "get_all_users db = users db"

text \<open>\<open>User.get_user_interests\<close>: the set of the interest column of the user's rows.\<close>

definition get_user_interests :: "database \<Rightarrow> int \<Rightarrow> string fset" where
  "get_user_interests db uid =
     fset_of_list (map snd (filter (\<lambda>r. fst r = uid) (interests db)))"

subsection \<open>\<open>str.strip\<close> and \<open>str.lower\<close> on 7-bit characters\<close>

definition py_whitespace :: "char list" where
  "py_whitespace = [CHR 0x09, CHR 0x0A, CHR 0x0B, CHR 0x0C, CHR 0x0D,
                    CHR 0x1C, CHR 0x1D, CHR 0x1E, CHR 0x1F, CHR 0x20]"

definition strip :: "string \<Rightarrow> string" where
  "strip s = rev (dropWhile (\<lambda>c. c \<in> set py_whitespace)
                   (rev (dropWhile (\<lambda>c. c \<in> set py_whitespace) s)))"

definition lower_char :: "char \<Rightarrow> char" where
  "lower_char c =
     (case map_of (zip ''ABCDEFGHIJKLMNOPQRSTUVWXYZ'' ''abcdefghijklmnopqrstuvwxyz'') c of
        None \<Rightarrow> c | Some d \<Rightarrow> d)"

definition lower :: "string \<Rightarrow> string" where
  "lower s = map lower_char s"

subsection \<open>\<open>User.create_user\<close>\<close>

text \<open>
  The rowid an AUTOINCREMENT column gives the next row: one more than the largest rowid
  the table has ever held. The insert fails (SQLITE\_FULL) past the largest 64-bit rowid.
\<close>

definition next_rowid :: "database \<Rightarrow> int" where
  "next_rowid db = fold max (map u_id (users db)) (users_seq db) + 1"

definition max_rowid :: int where
  "max_rowid = 9223372036854775807"

text \<open>
  One pass of the interests loop: the insert of \<open>(user_id, interest.strip().lower())\<close>
  raises \<open>IntegrityError\<close> on \<open>UNIQUE(user_id, interest)\<close>, which the loop swallows.
\<close>

definition insert_interest :: "int \<Rightarrow> string \<Rightarrow> database \<Rightarrow> database" where
  "insert_interest uid interest db =
     (let i = lower (strip interest) in
      if (uid, i) \<in> set (interests db) then db
      else db\<lparr>interests := interests db @ [(uid, i)]\<rparr>)"

text \<open>
  One pass of the friends loop: if \<open>fid\<close> is a user, insert \<open>(user_id, fid)\<close> and then
  \<open>(fid, user_id)\<close>; an \<open>IntegrityError\<close> on \<open>UNIQUE(user_id, friend_id)\<close> at either
  insert leaves the loop body, keeping what was inserted before it.
\<close>

definition insert_friend :: "int \<Rightarrow> int \<Rightarrow> database \<Rightarrow> database" where
  "insert_friend uid fid db =
     (if get_user db fid \<noteq> None then
        (if (uid, fid) \<in> set (friends db) then db
         else let db1 = db\<lparr>friends := friends db @ [(uid, fid)]\<rparr> in
              if (fid, uid) \<in> set (friends db1) then db1
              else db1\<lparr>friends := friends db1 @ [(fid, uid)]\<rparr>)
      else db)"

text \<open>
  \<open>create_user\<close> returns the new store and the new id, or the unchanged store (rollback)
  and \<open>None\<close> when the insert into \<open>users\<close> fails: \<open>email\<close> is \<open>UNIQUE\<close>.
  \<open>if interests:\<close> and \<open>if friend_ids:\<close> skip both \<open>None\<close> and the empty list.
\<close>

definition create_user ::
  "database \<Rightarrow> string \<Rightarrow> string \<Rightarrow> string list option \<Rightarrow> int list option
     \<Rightarrow> database \<times> int option" where
  "create_user db nm em ints friend_ids =
     (if em \<in> set (map u_email (users db)) then (db, None)
      else let uid = next_rowid db in
        if uid > max_rowid then (db, None)
        else
          let db1 = db\<lparr>users := users db @ [\<lparr>u_id = uid, u_name = nm, u_email = em\<rparr>],
                       users_seq := uid\<rparr>;
              db2 = (case ints of None \<Rightarrow> db1
                     | Some is \<Rightarrow> fold (insert_interest uid) is db1);
              db3 = (case friend_ids of None \<Rightarrow> db2
                     | Some fs \<Rightarrow> fold (insert_friend uid) fs db2)
          in (db3, Some uid))"

section \<open>The graph snapshot (networkx.Graph as the engine uses it)\<close>

text \<open>
  An undirected \<open>networkx.Graph\<close> is a dictionary from node to its attributes and its
  adjacency, in insertion order. \<open>add_node\<close> creates the node or updates its attributes;
  \<open>add_edge\<close> creates either endpoint that is missing (with no attributes) and records
  each endpoint in the other's adjacency once; \<open>neighbors\<close> raises \<open>NetworkXError\<close>
  for a node that is not in the graph.
\<close>

datatype error = NetworkXError int | ZeroDivisionError | TypeError

record node_entry =
  attrs :: "(string \<times> string) option"
  adj :: "int list"

type_synonym graph = "(int \<times> node_entry) list"

definition empty_graph :: graph where
  "empty_graph = []"

definition nodes :: "graph \<Rightarrow> int list" where
  "nodes g = map fst g"

definition alter :: "int \<Rightarrow> (node_entry \<Rightarrow> node_entry) \<Rightarrow> graph \<Rightarrow> graph" where
  "alter n f g = map (\<lambda>(k, e). if k = n then (k, f e) else (k, e)) g"

definition add_node :: "graph \<Rightarrow> int \<Rightarrow> string \<Rightarrow> string \<Rightarrow> graph" where
  "add_node g n nm em =
     (case map_of g n of
        None \<Rightarrow> g @ [(n, \<lparr>attrs = Some (nm, em), adj = []\<rparr>)]
      | Some e \<Rightarrow> alter n (\<lambda>e. e\<lparr>attrs := Some (nm, em)\<rparr>) g)"

definition ensure_node :: "graph \<Rightarrow> int \<Rightarrow> graph" where
  "ensure_node g n =
     (case map_of g n of
        None \<Rightarrow> g @ [(n, \<lparr>attrs = None, adj = []\<rparr>)]
      | Some e \<Rightarrow> g)"

definition link :: "int \<Rightarrow> int \<Rightarrow> graph \<Rightarrow> graph" where
  "link u v g = alter u (\<lambda>e. e\<lparr>adj := (if v \<in> set (adj e) then adj e else adj e @ [v])\<rparr>) g"

definition add_edge :: "graph \<Rightarrow> int \<Rightarrow> int \<Rightarrow> graph" where
  "add_edge g u v = link v u (link u v (ensure_node (ensure_node g u) v))"

definition neighbors :: "graph \<Rightarrow> int \<Rightarrow> error + int list" where
  "neighbors g n =
     (case map_of g n of None \<Rightarrow> Inl (NetworkXError n) | Some e \<Rightarrow> Inr (adj e))"

text \<open>The directed reading of the adjacency, and the undirected edges it stands for.\<close>

definition arcs :: "graph \<Rightarrow> (int \<times> int) list" where
  "arcs g = concat (map (\<lambda>(u, e). map (\<lambda>v. (u, v)) (adj e)) g)"


subsection \<open>\<open>RecommendationEngine._build_graph\<close>\<close>

definition build_graph :: "database \<Rightarrow> graph" where
  "build_graph db =
     fold (\<lambda>row g. add_edge g (fst row) (snd row)) (friends db)
       (fold (\<lambda>user g. add_node g (u_id user) (u_name user) (u_email user))
          (get_all_users db) empty_graph)"

section \<open>The recommendation engine (friend\_app.py, RecommendationEngine)\<close>

text \<open>
  The engine holds the graph built at construction and a reference to the store; every
  method below takes the graph and the store as it is when the method runs. An
  exception is a value on the left of a sum.
\<close>

definition ebind :: "error + 'a \<Rightarrow> ('a \<Rightarrow> error + 'b) \<Rightarrow> error + 'b" where
  "ebind m f = (case m of Inl e \<Rightarrow> Inl e | Inr x \<Rightarrow> f x)"

text \<open>
  The order in which Python iterates over a set of integers or of strings is not fixed
  by the language; it is a parameter of the model.
\<close>

record runtime =
  int_set_iter :: "int fset \<Rightarrow> int list"
  str_set_iter :: "string fset \<Rightarrow> string list"


definition sorted_runtime :: runtime where
  "sorted_runtime = \<lparr>int_set_iter = sorted_list_of_fset, str_set_iter = sorted_list_of_fset\<rparr>"

text \<open>\<open>len(x) / len(y)\<close>: true division raises \<open>ZeroDivisionError\<close> on a zero divisor.\<close>

definition py_div :: "nat \<Rightarrow> nat \<Rightarrow> error + real" where
  "py_div a b = (if b = 0 then Inl ZeroDivisionError else Inr (real a / real b))"

definition jaccard_similarity :: "'a fset \<Rightarrow> 'a fset \<Rightarrow> error + real" where
  "jaccard_similarity a b =
     (if a \<noteq> {||} \<or> b \<noteq> {||} then py_div (fcard (a |\<inter>| b)) (fcard (a |\<union>| b))
      else Inr 0.0)"

record similarity =
  interest_similarity :: real
  mutual_friends_similarity :: real
  combined_score :: real
  common_interests :: "string list"
  mutual_friends_count :: nat

definition calculate_user_similarity ::
  "runtime \<Rightarrow> graph \<Rightarrow> database \<Rightarrow> int \<Rightarrow> int \<Rightarrow> error + similarity" where
  "calculate_user_similarity rt g db user1_id user2_id =
     (let interests1 = get_user_interests db user1_id;
          interests2 = get_user_interests db user2_id
      in ebind (neighbors g user1_id) (\<lambda>n1.
         ebind (neighbors g user2_id) (\<lambda>n2.
           let friends1 = fset_of_list n1; friends2 = fset_of_list n2
           in ebind (jaccard_similarity interests1 interests2) (\<lambda>interest_sim.
              ebind (jaccard_similarity friends1 friends2) (\<lambda>mutual_sim.
                let combined = 0.6 * mutual_sim + 0.4 * interest_sim
                in Inr \<lparr>interest_similarity = interest_sim,
                        mutual_friends_similarity = mutual_sim,
                        combined_score = combined,
                        common_interests = str_set_iter rt (interests1 |\<inter>| interests2),
                        mutual_friends_count = fcard (friends1 |\<inter>| friends2)\<rparr>)))))"

record recommendation =
  r_user_id :: int
  r_name :: string
  r_email :: string
  r_similarity_score :: real
  r_common_interests :: "string list"
  r_mutual_friends_count :: nat
  r_interest_similarity :: real
  r_mutual_friends_similarity :: real

text \<open>The dictionary appended for a retained candidate.\<close>

definition recommendation_of :: "int \<Rightarrow> user_row \<Rightarrow> similarity \<Rightarrow> recommendation" where
  "recommendation_of cid user sim =
     \<lparr>r_user_id = cid, r_name = u_name user, r_email = u_email user,
      r_similarity_score = combined_score sim,
      r_common_interests = common_interests sim,
      r_mutual_friends_count = mutual_friends_count sim,
      r_interest_similarity = interest_similarity sim,
      r_mutual_friends_similarity = mutual_friends_similarity sim\<rparr>"

text \<open>
  The body of \<open>for cid in candidates\<close>, over the candidates in iteration order.
  \<open>user['name']\<close> raises \<open>TypeError\<close> when \<open>get_user\<close> returned \<open>None\<close>.
\<close>

fun collect ::
  "runtime \<Rightarrow> graph \<Rightarrow> database \<Rightarrow> int \<Rightarrow> int list \<Rightarrow> error + recommendation list" where
  "collect rt g db user_id [] = Inr []"
| "collect rt g db user_id (cid # cids) =
     ebind (calculate_user_similarity rt g db user_id cid) (\<lambda>sim.
       if combined_score sim > 0 then
         (case get_user db cid of
            None \<Rightarrow> Inl TypeError
          | Some user \<Rightarrow>
              ebind (collect rt g db user_id cids) (\<lambda>rest.
                Inr (recommendation_of cid user sim # rest)))
       else collect rt g db user_id cids)"


text \<open>
  \<open>xs[:limit]\<close>: the first \<open>limit\<close> entries, or all but the last \<open>-limit\<close> when
  \<open>limit\<close> is negative.
\<close>

definition py_slice_to :: "'a list \<Rightarrow> int \<Rightarrow> 'a list" where
  "py_slice_to xs limit =
     (if limit \<ge> 0 then take (nat limit) xs else take (length xs - nat (- limit)) xs)"

text \<open>
  \<open>sorted(\<dots>, key=\<dots>, reverse=True)\<close> is a stable sort in descending key order:
  entries with equal keys keep their order.
\<close>

definition sorted_desc :: "recommendation list \<Rightarrow> recommendation list" where
  "sorted_desc rs = sort_key (\<lambda>r. - r_similarity_score r) rs"

definition get_friend_recommendations ::
  "runtime \<Rightarrow> graph \<Rightarrow> database \<Rightarrow> int \<Rightarrow> int \<Rightarrow> error + recommendation list" where
  "get_friend_recommendations rt g db user_id limit =
     ebind (neighbors g user_id) (\<lambda>ns.
       let current_friends = fset_of_list ns;
           candidates = fset_of_list (nodes g) |-| current_friends |-| {|user_id|}
       in ebind (collect rt g db user_id (int_set_iter rt candidates)) (\<lambda>recommendations.
            Inr (py_slice_to (sorted_desc recommendations) limit)))"

section \<open>The application state: one store, one engine\<close>

text \<open>
  \<open>FriendRecommendationApp.initialize\<close> builds the engine from the store; after that
  the menu's \<open>create_user\<close> writes to the store through \<open>User\<close>, which has no
  reference to the engine.
\<close>

record app_state =
  app_db :: database
  engine_graph :: graph

definition initialize :: "database \<Rightarrow> app_state" where
  "initialize db = \<lparr>app_db = db, engine_graph = build_graph db\<rparr>"

type_synonym call = "string \<times> string \<times> string list option \<times> int list option"

fun app_create_user :: "app_state \<Rightarrow> call \<Rightarrow> app_state \<times> int option" where
  "app_create_user a (nm, em, ints, friend_ids) =
     (let (db', r) = create_user (app_db a) nm em ints friend_ids
      in (a\<lparr>app_db := db'\<rparr>, r))"

fun run_create_users :: "app_state \<Rightarrow> call list \<Rightarrow> app_state \<times> int option list" where
  "run_create_users a [] = (a, [])"
| "run_create_users a (c # cs) =
     (let (a1, r) = app_create_user a c;
          (a2, rs) = run_create_users a1 cs
      in (a2, r # rs))"

text \<open>The invariants of a store written only through \<open>create_user\<close>.\<close>

definition fk_ok :: "database \<Rightarrow> bool" where
  "fk_ok db \<longleftrightarrow> (\<forall>(a, b) \<in> set (friends db). a \<in> user_ids db \<and> b \<in> user_ids db)"

definition rows_cover :: "graph \<Rightarrow> database \<Rightarrow> bool" where
  "rows_cover g db \<longleftrightarrow> (\<forall>n \<in> set (nodes g). get_user db n \<noteq> None)"

subsection \<open>A store to run the definitions on\<close>

text \<open>
  Six users: 1 and 3 share both interests and the friend 4; 2 shares one interest with
  1; 5 and 6 have no interests and no friends.
\<close>

definition example_db :: database where
  "example_db =
     \<lparr>users = [\<lparr>u_id = 1, u_name = ''ann'', u_email = ''ann@x.org''\<rparr>,
               \<lparr>u_id = 2, u_name = ''bob'', u_email = ''bob@x.org''\<rparr>,
               \<lparr>u_id = 3, u_name = ''cid'', u_email = ''cid@x.org''\<rparr>,
               \<lparr>u_id = 4, u_name = ''dan'', u_email = ''dan@x.org''\<rparr>,
               \<lparr>u_id = 5, u_name = ''eve'', u_email = ''eve@x.org''\<rparr>,
               \<lparr>u_id = 6, u_name = ''fay'', u_email = ''fay@x.org''\<rparr>],
      users_seq = 6,
      interests = [(1, ''a''), (1, ''b''), (2, ''a''), (2, ''c''), (3, ''a''), (3, ''b'')],
      friends = [(1, 4), (4, 1), (3, 4), (4, 3)]\<rparr>"

definition example_graph :: graph where
  "example_graph = build_graph example_db"



subsection \<open>A store with a friend row that names no user\<close>




section \<open>Properties of the similarity measure\<close>

lemma ebind_Inl [simp]: "ebind (Inl e) f = Inl e"
  by (simp add: ebind_def)

lemma ebind_Inr [simp]: "ebind (Inr x) f = f x"
  by (simp add: ebind_def)

lemma fcard_funion_pos: "a \<noteq> {||} \<or> b \<noteq> {||} \<Longrightarrow> fcard (a |\<union>| b) \<noteq> 0"
  by (auto simp: fcard_0_eq)

lemma fcard_finter_le: "fcard (a |\<inter>| b) \<le> fcard (a |\<union>| b)"
  by (rule fcard_mono) auto

lemma jaccard_value:
  "jaccard_similarity a b =
     Inr (if a |\<union>| b = {||} then 0 else real (fcard (a |\<inter>| b)) / real (fcard (a |\<union>| b)))"
  by (auto simp: jaccard_similarity_def py_div_def fcard_0_eq)

lemma jaccard_range:
  "jaccard_similarity a b = Inr r \<Longrightarrow> 0 \<le> r \<and> r \<le> 1"
proof -
  assume h: "jaccard_similarity a b = Inr r"
  show ?thesis
  proof (cases "a |\<union>| b = {||}")
    case True
    with h show ?thesis by (simp add: jaccard_value)
  next
    case False
    then have "fcard (a |\<union>| b) \<noteq> 0"
      by (metis fcard_0_eq)
    then have pos: "0 < real (fcard (a |\<union>| b))"
      by (metis of_nat_0_less_iff neq0_conv)
    have le: "real (fcard (a |\<inter>| b)) \<le> real (fcard (a |\<union>| b))"
      using fcard_finter_le [of a b] by simp
    from h False have "r = real (fcard (a |\<inter>| b)) / real (fcard (a |\<union>| b))"
      by (auto simp: jaccard_value split: if_splits)
    with pos le show ?thesis by simp
  qed
qed

text \<open>
  Claim C3. For finite sets \<open>a\<close> and \<open>b\<close> whose union is not empty the divisor is not
  zero and \<open>jaccard_similarity a b\<close> is the size of the intersection over the size of
  the union; when both sets are empty it is \<open>0.0\<close>.
\<close>

theorem jaccard_formula:
  "(a |\<union>| b \<noteq> {||} \<longrightarrow>
      fcard (a |\<union>| b) \<noteq> 0 \<and>
      jaccard_similarity a b = Inr (real (fcard (a |\<inter>| b)) / real (fcard (a |\<union>| b)))) \<and>
   (a = {||} \<and> b = {||} \<longrightarrow> jaccard_similarity a b = Inr 0)"
  by (simp add: jaccard_value fcard_0_eq)

theorem jaccard_formula_witness:
  "jaccard_similarity {|''a'', ''b''|} {|''a'', ''c''|} = Inr (1 / 3) \<and>
   jaccard_similarity ({||} :: string fset) {||} = Inr 0"
proof -
  have ne: "{|''a'', ''b''|} |\<union>| {|''a'', ''c''|} \<noteq> {||}" by simp
  have c1: "fcard ({|''a'', ''b''|} |\<inter>| {|''a'', ''c''|}) = 1" by code_simp
  have c2: "fcard ({|''a'', ''b''|} |\<union>| {|''a'', ''c''|}) = 3" by code_simp
  from jaccard_formula [of "{|''a'', ''b''|}" "{|''a'', ''c''|}"] ne
  have "jaccard_similarity {|''a'', ''b''|} {|''a'', ''c''|} =
          Inr (real (fcard ({|''a'', ''b''|} |\<inter>| {|''a'', ''c''|})) /
               real (fcard ({|''a'', ''b''|} |\<union>| {|''a'', ''c''|})))"
    by blast
  then have one: "jaccard_similarity {|''a'', ''b''|} {|''a'', ''c''|} = Inr (1 / 3)"
    by (simp only: c1 c2) simp
  from jaccard_formula [of "{||} :: string fset" "{||}"]
  have two: "jaccard_similarity ({||} :: string fset) {||} = Inr 0" by simp
  from one two show ?thesis by simp
qed

text \<open>
  Claim C7. \<open>jaccard_similarity\<close> is symmetric, gives \<open>1.0\<close> on a non-empty set and
  itself, gives \<open>0.0\<close> on two empty sets, and always returns a number between
  \<open>0.0\<close> and \<open>1.0\<close>.
\<close>

theorem jaccard_algebra:
  "jaccard_similarity a b = jaccard_similarity b a \<and>
   (a \<noteq> {||} \<longrightarrow> jaccard_similarity a a = Inr 1) \<and>
   jaccard_similarity ({||} :: 'a fset) {||} = Inr 0 \<and>
   (\<exists>r. jaccard_similarity a b = Inr r \<and> 0 \<le> r \<and> r \<le> 1)"
proof -
  have sym: "jaccard_similarity a b = jaccard_similarity b a"
    by (simp add: jaccard_value inf_commute sup_commute)
  have refl: "a \<noteq> {||} \<longrightarrow> jaccard_similarity a a = Inr 1"
    by (simp add: jaccard_value fcard_0_eq)
  have empty: "jaccard_similarity ({||} :: 'a fset) {||} = Inr 0"
    by (simp add: jaccard_value)
  obtain r where r: "jaccard_similarity a b = Inr r"
    by (simp add: jaccard_value)
  with jaccard_range [OF r] have "\<exists>r. jaccard_similarity a b = Inr r \<and> 0 \<le> r \<and> r \<le> 1"
    by blast
  with sym refl empty show ?thesis by blast
qed

theorem jaccard_algebra_witness:
  "jaccard_similarity {|1::int, 2|} {|2, 3|} = jaccard_similarity {|2::int, 3|} {|1, 2|} \<and>
   jaccard_similarity {|1::int, 2|} {|1, 2|} = Inr 1 \<and>
   (\<exists>r. jaccard_similarity {|1::int, 2|} {|2, 3|} = Inr r \<and> 0 \<le> r \<and> r \<le> 1)"
proof -
  have ne: "{|1::int, 2|} \<noteq> {||}" by simp
  from jaccard_algebra [of "{|1::int, 2|}" "{|2, 3|}"] jaccard_algebra [of "{|1::int, 2|}" "{|1, 2|}"] ne
  show ?thesis by blast
qed


section \<open>Properties of \<open>calculate_user_similarity\<close>\<close>

lemma neighbors_present:
  "n \<in> set (nodes g) \<Longrightarrow> \<exists>ns. neighbors g n = Inr ns"
proof -
  assume "n \<in> set (nodes g)"
  then have "map_of g n \<noteq> None"
    by (simp add: nodes_def map_of_eq_None_iff)
  then show ?thesis
    by (auto simp: neighbors_def)
qed


lemma combined_range:
  fixes m i :: real
  assumes "0 \<le> m" "m \<le> 1" "0 \<le> i" "i \<le> 1"
  shows "0 \<le> 0.6 * m + 0.4 * i \<and> 0.6 * m + 0.4 * i \<le> 1"
  using assms by simp

lemma similarity_present:
  assumes n1: "neighbors g u1 = Inr n1" and n2: "neighbors g u2 = Inr n2"
  shows "\<exists>s. calculate_user_similarity rt g db u1 u2 = Inr s \<and>
           jaccard_similarity (get_user_interests db u1) (get_user_interests db u2) =
             Inr (interest_similarity s) \<and>
           jaccard_similarity (fset_of_list n1) (fset_of_list n2) =
             Inr (mutual_friends_similarity s) \<and>
           combined_score s = 0.6 * mutual_friends_similarity s + 0.4 * interest_similarity s \<and>
           common_interests s =
             str_set_iter rt (get_user_interests db u1 |\<inter>| get_user_interests db u2) \<and>
           mutual_friends_count s = fcard (fset_of_list n1 |\<inter>| fset_of_list n2)"
proof -
  obtain i where i: "jaccard_similarity (get_user_interests db u1) (get_user_interests db u2) = Inr i"
    by (simp add: jaccard_value)
  obtain m where m: "jaccard_similarity (fset_of_list n1) (fset_of_list n2) = Inr m"
    by (simp add: jaccard_value)
  show ?thesis
    by (simp add: calculate_user_similarity_def Let_def n1 n2 i m)
qed



lemma example_graph_value:
  "example_graph =
     [(1, \<lparr>attrs = Some (''ann'', ''ann@x.org''), adj = [4]\<rparr>),
      (2, \<lparr>attrs = Some (''bob'', ''bob@x.org''), adj = []\<rparr>),
      (3, \<lparr>attrs = Some (''cid'', ''cid@x.org''), adj = [4]\<rparr>),
      (4, \<lparr>attrs = Some (''dan'', ''dan@x.org''), adj = [1, 3]\<rparr>),
      (5, \<lparr>attrs = Some (''eve'', ''eve@x.org''), adj = []\<rparr>),
      (6, \<lparr>attrs = Some (''fay'', ''fay@x.org''), adj = []\<rparr>)]"
  by code_simp

lemma example_nodes: "nodes example_graph = [1, 2, 3, 4, 5, 6]"
  by (simp add: example_graph_value nodes_def)

lemma ex_sim12: "calculate_user_similarity sorted_runtime example_graph example_db 1 2 =
     Inr \<lparr>interest_similarity = 1 / 3, mutual_friends_similarity = 0,
          combined_score = 2 / 15, common_interests = [''a''], mutual_friends_count = 0\<rparr>"
  by code_simp

text \<open>
  Claim C4. For two users of the snapshot, \<open>calculate_user_similarity\<close> returns a
  result whose interest similarity is the Jaccard similarity of the two interest sets,
  whose mutual-friend similarity is that of the two neighbour sets, and whose combined
  score is 0.6 times the second plus 0.4 times the first, between 0.0 and 1.0.
\<close>

theorem combined_score_formula:
  assumes "u1 \<in> set (nodes g)" and "u2 \<in> set (nodes g)"
  shows "\<exists>s n1 n2. calculate_user_similarity rt g db u1 u2 = Inr s \<and>
           neighbors g u1 = Inr n1 \<and> neighbors g u2 = Inr n2 \<and>
           jaccard_similarity (get_user_interests db u1) (get_user_interests db u2) =
             Inr (interest_similarity s) \<and>
           jaccard_similarity (fset_of_list n1) (fset_of_list n2) =
             Inr (mutual_friends_similarity s) \<and>
           combined_score s = 0.6 * mutual_friends_similarity s + 0.4 * interest_similarity s \<and>
           0 \<le> combined_score s \<and> combined_score s \<le> 1"
proof -
  from assms obtain n1 n2 where n: "neighbors g u1 = Inr n1" "neighbors g u2 = Inr n2"
    using neighbors_present by blast
  from similarity_present [OF n, of rt db] obtain s where
    s: "calculate_user_similarity rt g db u1 u2 = Inr s"
    and i: "jaccard_similarity (get_user_interests db u1) (get_user_interests db u2) =
              Inr (interest_similarity s)"
    and m: "jaccard_similarity (fset_of_list n1) (fset_of_list n2) =
              Inr (mutual_friends_similarity s)"
    and c: "combined_score s = 0.6 * mutual_friends_similarity s + 0.4 * interest_similarity s"
    by blast
  from jaccard_range [OF i] jaccard_range [OF m] c
  have "0 \<le> combined_score s \<and> combined_score s \<le> 1"
    using combined_range by simp
  with n s i m c show ?thesis by blast
qed

theorem combined_score_formula_witness:
  "\<exists>s n1 n2. calculate_user_similarity sorted_runtime example_graph example_db 1 2 = Inr s \<and>
     neighbors example_graph 1 = Inr n1 \<and> neighbors example_graph 2 = Inr n2 \<and>
     jaccard_similarity (get_user_interests example_db 1) (get_user_interests example_db 2) =
       Inr (interest_similarity s) \<and>
     jaccard_similarity (fset_of_list n1) (fset_of_list n2) =
       Inr (mutual_friends_similarity s) \<and>
     combined_score s = 0.6 * mutual_friends_similarity s + 0.4 * interest_similarity s \<and>
     0 \<le> combined_score s \<and> combined_score s \<le> 1"
proof -
  have h1: "1 \<in> set (nodes example_graph)" by (simp add: example_nodes)
  have h2: "2 \<in> set (nodes example_graph)" by (simp add: example_nodes)
  from combined_score_formula [OF h1 h2] show ?thesis .
qed

text \<open>
  Claim C10. For two users of the snapshot, \<open>calculate_user_similarity\<close> always
  returns a result: \<open>jaccard_similarity\<close> never divides by zero, whatever the
  interest sets and neighbour sets are, empty ones included.
\<close>

theorem similarity_total:
  assumes "u1 \<in> set (nodes g)" and "u2 \<in> set (nodes g)"
  shows "(\<exists>s. calculate_user_similarity rt g db u1 u2 = Inr s) \<and>
         (\<forall>a b :: string fset. \<exists>r. jaccard_similarity a b = Inr r) \<and>
         (\<forall>a b :: int fset. \<exists>r. jaccard_similarity a b = Inr r)"
proof -
  from assms obtain n1 n2 where n: "neighbors g u1 = Inr n1" "neighbors g u2 = Inr n2"
    using neighbors_present by blast
  from similarity_present [OF n, of rt db]
  have "\<exists>s. calculate_user_similarity rt g db u1 u2 = Inr s" by blast
  then show ?thesis by (simp add: jaccard_value)
qed

theorem similarity_total_witness:
  "\<exists>s. calculate_user_similarity sorted_runtime example_graph example_db 5 6 = Inr s"
proof -
  have h1: "5 \<in> set (nodes example_graph)" by (simp add: example_nodes)
  have h2: "6 \<in> set (nodes example_graph)" by (simp add: example_nodes)
  from similarity_total [OF h1 h2] show ?thesis by blast
qed

section \<open>Properties of \<open>get_friend_recommendations\<close>\<close>










lemma sorted_desc_length: "length (sorted_desc rs) = length rs"
  by (simp add: sorted_desc_def)









lemma example_recommendations:
  "map_sum id (map (\<lambda>r. (r_user_id r, r_similarity_score r)))
     (get_friend_recommendations sorted_runtime example_graph example_db 1 5) =
   Inr [(3, 1), (2, 2 / 15)]"
  by code_simp














section \<open>What the queries read from the store\<close>







section \<open>Properties of \<open>_build_graph\<close>\<close>

lemma nodes_alter [simp]: "nodes (alter n f g) = nodes g"
  by (induction g) (auto simp: nodes_def alter_def)

lemma nodes_add_node:
  "nodes (add_node g n nm em) = (if n \<in> set (nodes g) then nodes g else nodes g @ [n])"
proof (cases "map_of g n")
  case None
  then have "n \<notin> set (nodes g)"
    by (simp add: nodes_def map_of_eq_None_iff)
  with None show ?thesis
    by (simp add: add_node_def nodes_def)
next
  case (Some e)
  then have "n \<in> set (nodes g)"
    by (metis map_of_eq_None_iff nodes_def option.distinct(1) set_map)
  with Some show ?thesis
    by (simp add: add_node_def)
qed

lemma nodes_ensure_node:
  "nodes (ensure_node g n) = (if n \<in> set (nodes g) then nodes g else nodes g @ [n])"
proof (cases "map_of g n")
  case None
  then have "n \<notin> set (nodes g)"
    by (simp add: nodes_def map_of_eq_None_iff)
  with None show ?thesis
    by (simp add: ensure_node_def nodes_def)
next
  case (Some e)
  then have "n \<in> set (nodes g)"
    by (metis map_of_eq_None_iff nodes_def option.distinct(1) set_map)
  with Some show ?thesis
    by (simp add: ensure_node_def)
qed

lemma nodes_link [simp]: "nodes (link u v g) = nodes g"
  by (simp add: link_def)

lemma set_nodes_add_edge: "set (nodes (add_edge g u v)) = insert u (insert v (set (nodes g)))"
  by (auto simp: add_edge_def nodes_ensure_node)



lemma set_nodes_fold_add_node:
  "set (nodes (fold (\<lambda>user g. add_node g (u_id user) (u_name user) (u_email user)) us g)) =
     set (nodes g) \<union> u_id ` set us"
  by (induction us arbitrary: g) (auto simp: nodes_add_node)

lemma set_nodes_fold_add_edge:
  "set (nodes (fold (\<lambda>row g. add_edge g (fst row) (snd row)) fs g)) =
     set (nodes g) \<union> fst ` set fs \<union> snd ` set fs"
  by (induction fs arbitrary: g) (auto simp: set_nodes_add_edge)



lemma nodes_empty_graph [simp]: "nodes empty_graph = []"
  by (simp add: nodes_def empty_graph_def)

lemma set_nodes_build_graph:
  "set (nodes (build_graph db)) = user_ids db \<union> fst ` set (friends db) \<union> snd ` set (friends db)"
  by (simp add: build_graph_def set_nodes_fold_add_edge set_nodes_fold_add_node
      get_all_users_def user_ids_def)


lemma fk_ok_endpoints:
  "fk_ok db \<Longrightarrow> fst ` set (friends db) \<union> snd ` set (friends db) \<subseteq> user_ids db"
  by (auto simp: fk_ok_def)

lemma set_nodes_build_graph_fk: "fk_ok db \<Longrightarrow> set (nodes (build_graph db)) = user_ids db"
  using fk_ok_endpoints [of db] by (auto simp: set_nodes_build_graph)

lemma arcs_Nil [simp]: "arcs [] = []"
  by (simp add: arcs_def)

lemma arcs_Cons [simp]: "arcs ((n, e) # g) = map (\<lambda>v. (n, v)) (adj e) @ arcs g"
  by (simp add: arcs_def)

lemma arcs_append [simp]: "arcs (g @ h) = arcs g @ arcs h"
  by (simp add: arcs_def)


lemma alter_Nil [simp]: "alter n f [] = []"
  by (simp add: alter_def)

lemma alter_Cons [simp]:
  "alter n f ((k, e) # g) = (if k = n then (k, f e) else (k, e)) # alter n f g"
  by (simp add: alter_def)

lemma nodes_Cons [simp]: "nodes ((k, e) # g) = k # nodes g"
  by (simp add: nodes_def)


lemma arcs_alter_same:
  assumes "\<And>e. adj (f e) = adj e"
  shows "arcs (alter n f g) = arcs g"
  using assms by (induction g) auto

lemma arcs_add_node [simp]: "arcs (add_node g n nm em) = arcs g"
  by (cases "map_of g n") (simp_all add: add_node_def arcs_alter_same)

lemma arcs_ensure_node [simp]: "arcs (ensure_node g n) = arcs g"
  by (cases "map_of g n") (simp_all add: ensure_node_def)



lemma arcs_fold_add_node [simp]:
  "arcs (fold (\<lambda>user g. add_node g (u_id user) (u_name user) (u_email user)) us g) = arcs g"
  by (induction us arbitrary: g) auto



















section \<open>Properties of \<open>create_user\<close> and the graph already built\<close>

lemma fold_max_ge_init: "(a::int) \<le> fold max xs a"
proof (induction xs arbitrary: a)
  case Nil
  show ?case by simp
next
  case (Cons x xs)
  have "a \<le> max x a" by simp
  also have "\<dots> \<le> fold max xs (max x a)" by (rule Cons.IH)
  finally show ?case by simp
qed

lemma fold_max_ge_elem: "x \<in> set xs \<Longrightarrow> (x::int) \<le> fold max xs a"
proof (induction xs arbitrary: a)
  case Nil
  then show ?case by simp
next
  case (Cons y ys)
  show ?case
  proof (cases "x = y")
    case True
    have "x \<le> max y a" using True by simp
    also have "\<dots> \<le> fold max ys (max y a)" by (rule fold_max_ge_init)
    finally show ?thesis by simp
  next
    case False
    with Cons.prems have "x \<in> set ys" by simp
    from Cons.IH [OF this] show ?thesis by simp
  qed
qed

lemma next_rowid_fresh: "next_rowid db \<notin> user_ids db"
proof
  assume "next_rowid db \<in> user_ids db"
  then have "next_rowid db \<in> set (map u_id (users db))"
    by (simp add: user_ids_def)
  from fold_max_ge_elem [OF this, of "users_seq db"]
  show False by (simp add: next_rowid_def)
qed

lemma users_insert_interest [simp]: "users (insert_interest uid i db) = users db"
  by (simp add: insert_interest_def Let_def)

lemma users_insert_friend [simp]: "users (insert_friend uid fid db) = users db"
  by (simp add: insert_friend_def Let_def)

lemma users_fold_insert_interest [simp]: "users (fold (insert_interest uid) is db) = users db"
  by (induction "is" arbitrary: db) auto

lemma users_fold_insert_friend [simp]: "users (fold (insert_friend uid) fs db) = users db"
  by (induction fs arbitrary: db) auto

lemma create_user_users:
  "create_user db nm em ints fids = (db', r) \<Longrightarrow>
     (case r of
        None \<Rightarrow> db' = db
      | Some uid \<Rightarrow> uid = next_rowid db \<and>
          users db' = users db @ [\<lparr>u_id = uid, u_name = nm, u_email = em\<rparr>])"
  by (auto simp: create_user_def Let_def split: if_splits option.splits)

lemma create_user_ids:
  assumes "create_user db nm em ints fids = (db', r)"
  shows "user_ids db \<subseteq> user_ids db' \<and> (\<forall>uid. r = Some uid \<longrightarrow> uid \<notin> user_ids db)"
proof (cases r)
  case None
  with create_user_users [OF assms] show ?thesis by simp
next
  case (Some uid)
  with create_user_users [OF assms] have "uid = next_rowid db"
    and "users db' = users db @ [\<lparr>u_id = uid, u_name = nm, u_email = em\<rparr>]"
    by auto
  with Some next_rowid_fresh [of db] show ?thesis
    by (auto simp: user_ids_def)
qed

lemma app_create_user_keeps_graph:
  assumes "app_create_user a c = (a', r)"
  shows "engine_graph a' = engine_graph a \<and> user_ids (app_db a) \<subseteq> user_ids (app_db a') \<and>
         (\<forall>uid. r = Some uid \<longrightarrow> uid \<notin> user_ids (app_db a))"
proof -
  obtain nm em ints fids where c: "c = (nm, em, ints, fids)" by (cases c)
  obtain db' r' where cu: "create_user (app_db a) nm em ints fids = (db', r')"
    by (cases "create_user (app_db a) nm em ints fids")
  with assms c have "a' = a\<lparr>app_db := db'\<rparr>" and "r = r'" by auto
  with create_user_ids [OF cu] show ?thesis by simp
qed

lemma run_create_users_keeps_graph:
  "run_create_users a cs = (a', rs) \<Longrightarrow>
     engine_graph a' = engine_graph a \<and> user_ids (app_db a) \<subseteq> user_ids (app_db a') \<and>
     (\<forall>uid. Some uid \<in> set rs \<longrightarrow> uid \<notin> user_ids (app_db a))"
proof (induction cs arbitrary: a a' rs)
  case Nil
  then show ?case by simp
next
  case (Cons c cs)
  obtain a1 r where s1: "app_create_user a c = (a1, r)"
    by (cases "app_create_user a c")
  obtain a2 rs2 where s2: "run_create_users a1 cs = (a2, rs2)"
    by (cases "run_create_users a1 cs")
  from Cons.prems s1 s2 have e: "a' = a2" "rs = r # rs2" by auto
  from app_create_user_keeps_graph [OF s1] have
    f1: "engine_graph a1 = engine_graph a" and f2: "user_ids (app_db a) \<subseteq> user_ids (app_db a1)"
    and f3: "\<forall>uid. r = Some uid \<longrightarrow> uid \<notin> user_ids (app_db a)"
    by auto
  from Cons.IH [OF s2] have
    g1: "engine_graph a2 = engine_graph a1" and g2: "user_ids (app_db a1) \<subseteq> user_ids (app_db a2)"
    and g3: "\<forall>uid. Some uid \<in> set rs2 \<longrightarrow> uid \<notin> user_ids (app_db a1)"
    by auto
  from f1 f2 f3 g1 g2 g3 e show ?case by auto
qed




lemma get_user_None_iff: "get_user db n = None \<longleftrightarrow> n \<notin> user_ids db"
  by (auto simp: get_user_def user_ids_def find_None_iff)

lemma rows_cover_build_graph: "rows_cover (build_graph db) db \<longleftrightarrow> fk_ok db"
proof
  assume "rows_cover (build_graph db) db"
  then have "set (nodes (build_graph db)) \<subseteq> user_ids db"
    by (auto simp: rows_cover_def get_user_None_iff)
  then show "fk_ok db"
    by (force simp: set_nodes_build_graph fk_ok_def)
next
  assume "fk_ok db"
  from set_nodes_build_graph_fk [OF this] show "rows_cover (build_graph db) db"
    by (simp add: rows_cover_def get_user_None_iff)
qed

lemma friends_insert_interest [simp]: "friends (insert_interest uid i db) = friends db"
  by (simp add: insert_interest_def Let_def)

lemma friends_fold_insert_interest [simp]:
  "friends (fold (insert_interest uid) is db) = friends db"
  by (induction "is" arbitrary: db) auto

lemma fk_ok_insert_friend:
  assumes "fk_ok db" and "uid \<in> user_ids db"
  shows "fk_ok (insert_friend uid fid db)"
proof (cases "get_user db fid = None")
  case True
  with assms show ?thesis by (simp add: insert_friend_def)
next
  case False
  then have "fid \<in> user_ids db" by (simp add: get_user_None_iff)
  with assms show ?thesis
    by (auto simp: insert_friend_def Let_def fk_ok_def user_ids_def)
qed

lemma user_ids_insert_friend [simp]: "user_ids (insert_friend uid fid db) = user_ids db"
  by (simp add: user_ids_def)

lemma fk_ok_fold_insert_friend:
  "fk_ok db \<Longrightarrow> uid \<in> user_ids db \<Longrightarrow> fk_ok (fold (insert_friend uid) fs db)"
proof (induction fs arbitrary: db)
  case Nil
  then show ?case by simp
next
  case (Cons f fs)
  from fk_ok_insert_friend [OF Cons.prems] Cons.prems(2)
  have "fk_ok (insert_friend uid f db)" and "uid \<in> user_ids (insert_friend uid f db)"
    by simp_all
  from Cons.IH [OF this] show ?case by simp
qed

lemma fk_ok_users_friends:
  "fk_ok db \<Longrightarrow> friends db' = friends db \<Longrightarrow> user_ids db \<subseteq> user_ids db' \<Longrightarrow> fk_ok db'"
  by (fastforce simp: fk_ok_def)

lemma fk_ok_create_user:
  assumes "fk_ok db"
  shows "fk_ok (fst (create_user db nm em ints friend_ids))"
proof (cases "em \<in> set (map u_email (users db)) \<or> next_rowid db > max_rowid")
  case True
  with assms show ?thesis by (auto simp: create_user_def Let_def)
next
  case False
  define uid where "uid = next_rowid db"
  define db1 where "db1 = db\<lparr>users := users db @ [\<lparr>u_id = uid, u_name = nm, u_email = em\<rparr>],
                       users_seq := uid\<rparr>"
  define db2 where "db2 = (case ints of None \<Rightarrow> db1
                     | Some is \<Rightarrow> fold (insert_interest uid) is db1)"
  define db3 where "db3 = (case friend_ids of None \<Rightarrow> db2
                     | Some fs \<Rightarrow> fold (insert_friend uid) fs db2)"
  from False have r: "fst (create_user db nm em ints friend_ids) = db3"
    unfolding db3_def db2_def db1_def uid_def by (simp add: create_user_def Let_def)
  have "fk_ok db1"
    by (rule fk_ok_users_friends [OF assms]) (auto simp: db1_def user_ids_def)
  moreover have f2: "friends db2 = friends db1" and u2: "users db2 = users db1"
    by (simp_all add: db2_def split: option.splits)
  ultimately have k2: "fk_ok db2"
    by (auto intro: fk_ok_users_friends simp: user_ids_def)
  have "uid \<in> user_ids db2"
    by (simp add: user_ids_def u2 db1_def)
  with k2 have "fk_ok db3"
    by (auto simp: db3_def fk_ok_fold_insert_friend split: option.splits)
  with r show ?thesis by simp
qed

lemma fk_ok_empty_db: "fk_ok empty_db"
  by (simp add: fk_ok_def empty_db_def)

lemma run_create_users_fk_ok:
  "fk_ok (app_db a) \<Longrightarrow> run_create_users a calls = (a', rs) \<Longrightarrow> fk_ok (app_db a')"
proof (induction calls arbitrary: a a' rs)
  case Nil
  then show ?case by simp
next
  case (Cons c cs)
  obtain nm em ints fids where c: "c = (nm, em, ints, fids)" by (cases c)
  obtain a1 r where s1: "app_create_user a c = (a1, r)"
    by (cases "app_create_user a c")
  obtain a2 rs2 where s2: "run_create_users a1 cs = (a2, rs2)"
    by (cases "run_create_users a1 cs")
  from Cons.prems(2) s1 s2 have e: "a' = a2" by auto
  from s1 c have "app_db a1 = fst (create_user (app_db a) nm em ints fids)"
    by (auto split: prod.splits)
  with fk_ok_create_user [OF Cons.prems(1)] have "fk_ok (app_db a1)" by simp
  from Cons.IH [OF this s2] e show ?case by simp
qed

lemma built_from_empty_fk_ok:
  "run_create_users (initialize empty_db) calls = (a', rs) \<Longrightarrow> fk_ok (app_db a')"
  by (rule run_create_users_fk_ok [of "initialize empty_db"])
    (simp_all add: initialize_def fk_ok_empty_db)

lemma run_create_users_rows_cover:
  assumes "fk_ok db0" and "run_create_users (initialize db0) calls = (a', rs)"
  shows "rows_cover (engine_graph a') (app_db a')"
proof -
  from run_create_users_keeps_graph [OF assms(2)] have
    g: "engine_graph a' = build_graph db0" and s: "user_ids db0 \<subseteq> user_ids (app_db a')"
    by (simp_all add: initialize_def)
  from set_nodes_build_graph_fk [OF assms(1)] g s show ?thesis
    by (auto simp: rows_cover_def get_user_None_iff)
qed









end
